theory Spec2Isabelle
  imports Main
begin

section \<open>JavaScript values and plain objects\<close>

text \<open>
  The library is TypeScript on top of lodash, axios and Node's \<open>url\<close> and
  \<open>querystring\<close> modules. Values that travel through the casing pipeline are
  modelled by \<open>jsval\<close>. Numbers are restricted to \<open>NaN\<close> and the integers a
  JavaScript number holds exactly and prints in plain decimal, those of magnitude below
  \<open>2^53\<close> (enough to distinguish zero, non-zero and \<open>NaN\<close> for JavaScript
  truthiness); \<open>JNum\<close> is not meant to carry anything larger.
  Strings are lists of 8-bit characters read as Latin-1 code points, U+0000 to U+00FF:
  a key with a character beyond U+00FF is outside this model.
  A plain object is an association list in the order \<open>Object.keys\<close> reports.
\<close>

datatype jsval =
    JUndefined
  | JNull
  | JBool bool
  | JNum int
  | JNaN
  | JStr string
  | JObject "(string \<times> jsval) list"
  | JArray "jsval list"
  | JBuffer string

type_synonym obj = "(string \<times> jsval) list"

text \<open>\<open>ToBoolean\<close>: what \<open>if (v)\<close>, \<open>!v\<close>, \<open>a || b\<close> and lodash's \<open>identity\<close> predicate see.\<close>

fun truthy :: "jsval \<Rightarrow> bool" where
  "truthy JUndefined = False"
| "truthy JNull = False"
| "truthy (JBool b) = b"
| "truthy (JNum n) = (n \<noteq> 0)"
| "truthy JNaN = False"
| "truthy (JStr s) = (s \<noteq> [])"
| "truthy (JObject kvs) = True"
| "truthy (JArray vs) = True"
| "truthy (JBuffer bs) = True"

subsection \<open>Character classes\<close>

definition is_lower :: "char \<Rightarrow> bool" where
  "is_lower c \<longleftrightarrow> 97 \<le> (of_char c :: nat) \<and> (of_char c :: nat) \<le> 122"

definition is_upper :: "char \<Rightarrow> bool" where
  "is_upper c \<longleftrightarrow> 65 \<le> (of_char c :: nat) \<and> (of_char c :: nat) \<le> 90"

definition is_digit :: "char \<Rightarrow> bool" where
  "is_digit c \<longleftrightarrow> 48 \<le> (of_char c :: nat) \<and> (of_char c :: nat) \<le> 57"

definition lower_char :: "char \<Rightarrow> char" where
  "lower_char c = (if is_upper c then char_of (of_char c + 32 :: nat) else c)"

definition upper_char :: "char \<Rightarrow> char" where
  "upper_char c = (if is_lower c then char_of (of_char c - 32 :: nat) else c)"

text \<open>
  \<open>String.prototype.toLowerCase\<close> on the basic Latin letters, the only letters left in
  a word once lodash has deburred the string.
\<close>

definition toLowerCase :: "string \<Rightarrow> string" where
  "toLowerCase s = map lower_char s"

subsection \<open>Own properties in enumeration order\<close>

text \<open>
  \<open>Object.keys\<close> lists array-index keys (canonical decimal numerals below
  \<open>2^32 - 1\<close>) first, in ascending numeric order, and then the other string keys in
  the order they were created. \<open>obj_set\<close> is the assignment \<open>o[k] = v\<close> on an
  ordinary object: an existing property keeps its place, a new one is created.
  The same operations serve for header objects, whose values are strings.
\<close>

definition digits_value :: "string \<Rightarrow> int" where
  "digits_value s = foldl (\<lambda>n c. 10 * n + (of_char c - 48)) 0 s"

definition is_array_index :: "string \<Rightarrow> bool" where
  "is_array_index s \<longleftrightarrow>
     s \<noteq> [] \<and> list_all is_digit s \<and> (s = ''0'' \<or> hd s \<noteq> CHR ''0'')
     \<and> digits_value s < 4294967295"

fun insert_index :: "string \<Rightarrow> 'v \<Rightarrow> (string \<times> 'v) list \<Rightarrow> (string \<times> 'v) list" where
  "insert_index k v [] = [(k, v)]"
| "insert_index k v ((k', v') # kvs) =
     (if is_array_index k' \<and> digits_value k' < digits_value k
      then (k', v') # insert_index k v kvs
      else (k, v) # (k', v') # kvs)"

fun obj_replace :: "string \<Rightarrow> 'v \<Rightarrow> (string \<times> 'v) list \<Rightarrow> (string \<times> 'v) list" where
  "obj_replace k v [] = []"
| "obj_replace k v ((k', v') # kvs) =
     (if k' = k then (k, v) # kvs else (k', v') # obj_replace k v kvs)"

definition Object_keys :: "(string \<times> 'v) list \<Rightarrow> string list" where
  "Object_keys data = map fst data"

definition obj_get :: "obj \<Rightarrow> string \<Rightarrow> jsval" where
  "obj_get data key = (case map_of data key of Some v \<Rightarrow> v | None \<Rightarrow> JUndefined)"

definition obj_set :: "string \<Rightarrow> 'v \<Rightarrow> (string \<times> 'v) list \<Rightarrow> (string \<times> 'v) list" where
  "obj_set k v kvs =
     (if k \<in> set (Object_keys kvs) then obj_replace k v kvs
      else if is_array_index k then insert_index k v kvs
      else kvs @ [(k, v)])"

section \<open>The lodash functions the pipeline calls\<close>

text \<open>
  \<open>snakeCase\<close>, \<open>camelCase\<close> and \<open>pickBy\<close> are imported from lodash 4. Both case
  functions are built by lodash's \<open>createCompounder\<close>: the key is deburred (Latin-1
  letters are replaced by basic Latin ones), apostrophes are removed, the result is
  split by \<open>words\<close>, and the words are folded with an index.

  The case functions are modelled on Latin-1 strings only, and what is proved of them
  holds for such keys only. Beyond Latin-1 lodash behaves differently: the key U+212B
  (the angstrom sign) is one word that \<open>toLowerCase\<close> turns into U+00E5, so
  \<open>camelCase\<close> and \<open>snakeCase\<close> both give U+00E5, while \<open>camelCase\<close> of that result
  deburrs it to \<open>a\<close>.
\<close>

definition deburrLetter :: "char \<Rightarrow> string" where
  "deburrLetter c =
     (let n = (of_char c :: nat) in
      if 192 \<le> n \<and> n \<le> 197 then ''A''
      else if n = 198 then ''Ae''
      else if n = 199 then ''C''
      else if 200 \<le> n \<and> n \<le> 203 then ''E''
      else if 204 \<le> n \<and> n \<le> 207 then ''I''
      else if n = 208 then ''D''
      else if n = 209 then ''N''
      else if 210 \<le> n \<and> n \<le> 214 then ''O''
      else if n = 216 then ''O''
      else if 217 \<le> n \<and> n \<le> 220 then ''U''
      else if n = 221 then ''Y''
      else if n = 222 then ''Th''
      else if n = 223 then ''ss''
      else if 224 \<le> n \<and> n \<le> 229 then ''a''
      else if n = 230 then ''ae''
      else if n = 231 then ''c''
      else if 232 \<le> n \<and> n \<le> 235 then ''e''
      else if 236 \<le> n \<and> n \<le> 239 then ''i''
      else if n = 240 then ''d''
      else if n = 241 then ''n''
      else if 242 \<le> n \<and> n \<le> 246 then ''o''
      else if n = 248 then ''o''
      else if 249 \<le> n \<and> n \<le> 252 then ''u''
      else if n = 253 then ''y''
      else if n = 254 then ''th''
      else if n = 255 then ''y''
      else [c])"

definition deburr :: "string \<Rightarrow> string" where
  "deburr s = concat (map deburrLetter s)"

text \<open>\<open>reApos\<close>: the apostrophe (the other one, U+2019, is outside Latin-1).\<close>

definition removeApos :: "string \<Rightarrow> string" where
  "removeApos s = filter (\<lambda>c. c \<noteq> CHR 0x27) s"

subsection \<open>words\<close>

text \<open>
  \<open>words(string)\<close> is \<open>unicodeWords\<close> when \<open>reHasUnicodeWord\<close>, which is
  \<^verbatim>\<open>/[a-z][A-Z]|[A-Z]{2}[a-z]|[0-9][a-zA-Z]|[a-zA-Z][0-9]|[^a-zA-Z0-9 ]/\<close>,
  matches somewhere in the string, and \<open>asciiWords\<close> otherwise.
  \<open>hint_at\<close> is that expression anchored at the head of the string.
\<close>

definition is_letter :: "char \<Rightarrow> bool" where
  "is_letter c \<longleftrightarrow> is_lower c \<or> is_upper c"

definition is_alnum :: "char \<Rightarrow> bool" where
  "is_alnum c \<longleftrightarrow> is_letter c \<or> is_digit c"

definition hint_at :: "string \<Rightarrow> bool" where
  "hint_at s =
     (case s of
        [] \<Rightarrow> False
      | a # r \<Rightarrow>
          (\<not> is_alnum a \<and> a \<noteq> CHR '' '')
          \<or> (case r of
                [] \<Rightarrow> False
              | b # r' \<Rightarrow>
                  (is_lower a \<and> is_upper b)
                  \<or> (is_upper a \<and> is_upper b \<and> (case r' of [] \<Rightarrow> False | c # _ \<Rightarrow> is_lower c))
                  \<or> (is_digit a \<and> is_letter b)
                  \<or> (is_letter a \<and> is_digit b)))"

fun hasUnicodeWord :: "string \<Rightarrow> bool" where
  "hasUnicodeWord [] = False"
| "hasUnicodeWord (c # cs) = (hint_at (c # cs) \<or> hasUnicodeWord cs)"

text \<open>
  \<open>reAsciiWord\<close> is \<^verbatim>\<open>/[^\x00-\x2f\x3a-\x40\x5b-\x60\x7b-\x7f]+/g\<close>: the maximal runs
  of characters outside those ranges.
\<close>

definition is_ascii_word_char :: "char \<Rightarrow> bool" where
  "is_ascii_word_char c \<longleftrightarrow>
     (let n = (of_char c :: nat) in
      \<not> n \<le> 47 \<and> \<not> (58 \<le> n \<and> n \<le> 64) \<and> \<not> (91 \<le> n \<and> n \<le> 96) \<and> \<not> (123 \<le> n \<and> n \<le> 127))"

definition ascii_word_at :: "string \<Rightarrow> nat" where
  "ascii_word_at s = length (takeWhile is_ascii_word_char s)"

function asciiWords :: "string \<Rightarrow> string list" where
  "asciiWords s =
     (if s = [] then []
      else let n = ascii_word_at s in
           if n = 0 then asciiWords (tl s)
           else take n s # asciiWords (drop n s))"
  by pat_completeness auto
termination
  by (relation "measure length") auto

text \<open>
  \<open>reUnicodeWord\<close> is a global alternation; on a deburred Latin-1 string without
  apostrophes its classes are the basic letters and digits, every other character is a
  break, and the contraction and emoji parts cannot match. In the order lodash lists them:
  \<^enum> \<^verbatim>\<open>[A-Z]?[a-z]+(?=break|[A-Z]|$)\<close>
  \<^enum> \<^verbatim>\<open>[A-Z]+(?=break|[A-Z][a-z]|$)\<close>
  \<^enum> \<^verbatim>\<open>[A-Z]?[a-z]+\<close>
  \<^enum> \<^verbatim>\<open>[A-Z]+\<close>
  \<^enum> \<^verbatim>\<open>\d*(?:1ST|2ND|3RD|(?![123])\dTH)(?=\b|[a-z_])\<close>
  \<^enum> \<^verbatim>\<open>\d*(?:1st|2nd|3rd|(?![123])\dth)(?=\b|[A-Z_])\<close>
  \<^enum> \<^verbatim>\<open>\d+\<close>

  \<open>word_at s\<close> is the length of the match anchored at the head of \<open>s\<close> (first
  alternative that matches, greedy with backtracking), and \<open>0\<close> when none matches.
  A lower-case head yields the whole lower-case run (alternative 1 or 3). An upper-case
  head followed directly by lower-case letters yields that capital and the run (1 or 3);
  a run of several capitals followed by a lower-case letter yields the run without its
  last capital (2, after backtracking one step); any other run of capitals is taken
  whole (2 or 4). A digit head yields the digit run, extended by an ordinal suffix when
  the last digit and the two letters after it agree and the look-ahead holds (5, 6),
  and the bare digit run otherwise (7).
\<close>

definition ord_suffix_upper :: "char \<Rightarrow> string" where
  "ord_suffix_upper d =
     (if d = CHR ''1'' then ''ST'' else if d = CHR ''2'' then ''ND''
      else if d = CHR ''3'' then ''RD'' else ''TH'')"

definition ord_suffix_lower :: "char \<Rightarrow> string" where
  "ord_suffix_lower d =
     (if d = CHR ''1'' then ''st'' else if d = CHR ''2'' then ''nd''
      else if d = CHR ''3'' then ''rd'' else ''th'')"

definition ord_upper_at :: "char \<Rightarrow> string \<Rightarrow> bool" where
  "ord_upper_at d rest \<longleftrightarrow>
     take 2 rest = ord_suffix_upper d
     \<and> (case drop 2 rest of [] \<Rightarrow> True | x # _ \<Rightarrow> \<not> is_upper x \<and> \<not> is_digit x)"

definition ord_lower_at :: "char \<Rightarrow> string \<Rightarrow> bool" where
  "ord_lower_at d rest \<longleftrightarrow>
     take 2 rest = ord_suffix_lower d
     \<and> (case drop 2 rest of [] \<Rightarrow> True | x # _ \<Rightarrow> \<not> is_lower x \<and> \<not> is_digit x)"

definition word_at :: "string \<Rightarrow> nat" where
  "word_at s =
     (case s of
        [] \<Rightarrow> 0
      | c # cs \<Rightarrow>
          if is_lower c then length (takeWhile is_lower s)
          else if is_upper c then
            (let us = takeWhile is_upper s; rest = dropWhile is_upper s in
             case rest of
               [] \<Rightarrow> length us
             | r # _ \<Rightarrow>
                 if is_lower r then
                   (if length us = 1 then 1 + length (takeWhile is_lower rest)
                    else length us - 1)
                 else length us)
          else if is_digit c then
            (let ds = takeWhile is_digit cs; rest = dropWhile is_digit cs;
                 d = last (c # ds) in
             if ord_upper_at d rest \<or> ord_lower_at d rest then length ds + 3
             else length ds + 1)
          else 0)"

function unicodeWords :: "string \<Rightarrow> string list" where
  "unicodeWords s =
     (if s = [] then []
      else let n = word_at s in
           if n = 0 then unicodeWords (tl s)
           else take n s # unicodeWords (drop n s))"
  by pat_completeness auto
termination
  by (relation "measure length") auto

definition words :: "string \<Rightarrow> string list" where
  "words s = (if hasUnicodeWord s then unicodeWords s else asciiWords s)"

subsection \<open>camelCase and snakeCase\<close>

fun upperFirst :: "string \<Rightarrow> string" where
  "upperFirst [] = []"
| "upperFirst (c # cs) = upper_char c # cs"

definition capitalize :: "string \<Rightarrow> string" where
  "capitalize s = upperFirst (toLowerCase s)"

text \<open>\<open>createCompounder\<close>: \<open>arrayReduce(words(deburr(string).replace(reApos, '')), callback, '')\<close>.\<close>

definition createCompounder ::
  "(string \<Rightarrow> string \<Rightarrow> nat \<Rightarrow> string) \<Rightarrow> string \<Rightarrow> string" where
  "createCompounder callback s =
     foldl (\<lambda>result (index, word). callback result word index) []
       (enumerate 0 (words (removeApos (deburr s))))"

definition snakeCase :: "string \<Rightarrow> string" where
  "snakeCase =
     createCompounder (\<lambda>result word index.
       result @ (if index \<noteq> 0 then ''_'' else []) @ toLowerCase word)"

definition camelCase :: "string \<Rightarrow> string" where
  "camelCase =
     createCompounder (\<lambda>result word index.
       let word = toLowerCase word in
       result @ (if index \<noteq> 0 then capitalize word else word))"

subsection \<open>pickBy\<close>

text \<open>
  \<open>pickBy(object)\<close> with the default predicate \<open>identity\<close>: a new object with the
  properties of \<open>object\<close> whose value is truthy, set in enumeration order. (This is
  lodash as it was when the library was written; later patch releases refuse to set
  the keys \<open>__proto__\<close>, \<open>constructor\<close> and \<open>prototype\<close>.)
\<close>

definition pickBy :: "obj \<Rightarrow> obj" where
  "pickBy data =
     foldl (\<lambda>result key.
              if truthy (obj_get data key) then obj_set key (obj_get data key) result
              else result)
       [] (Object_keys data)"

section \<open>The casing pipeline\<close>

text \<open>
  \<^verbatim>\<open>
  function snakePipe(data: any) {
    const ret: any = {};
    Object.keys(pickBy(data)).forEach(key => { ret[snakeCase(key)] = data[key]; });
    return ret;
  }
  function camelPipe(data: any) {
    const ret: any = {};
    Object.keys(data).forEach(key => { ret[camelCase(key)] = data[key]; });
    return ret;
  }
  \<close>
  Both are modelled on mapping inputs. (With \<open>undefined\<close>, \<open>pickBy\<close> gives the empty
  object and \<open>snakePipe\<close> returns \<open>{}\<close> without reading a property; the transport
  model below says so where a request has no body.)
\<close>

definition snakePipe :: "obj \<Rightarrow> obj" where
  "snakePipe data =
     foldl (\<lambda>ret key. obj_set (snakeCase key) (obj_get data key) ret)
       [] (Object_keys (pickBy data))"

definition camelPipe :: "obj \<Rightarrow> obj" where
  "camelPipe data =
     foldl (\<lambda>ret key. obj_set (camelCase key) (obj_get data key) ret)
       [] (Object_keys data)"

section \<open>Node's querystring and url modules\<close>

text \<open>
  \<open>querystring.escape\<close> leaves \<^verbatim>\<open>A-Z a-z 0-9 - _ . ! ~ * ' ( )\<close> alone and
  percent-encodes the UTF-8 bytes of every other character with upper-case hex digits.
\<close>

definition hex_digit :: "nat \<Rightarrow> char" where
  "hex_digit n = (if n < 10 then char_of (48 + n) else char_of (55 + n))"

definition percent :: "nat \<Rightarrow> string" where
  "percent b = [CHR ''%'', hex_digit (b div 16), hex_digit (b mod 16)]"

definition qs_unreserved :: "char \<Rightarrow> bool" where
  "qs_unreserved c \<longleftrightarrow> is_alnum c \<or> c \<in> set ''-_.!~*()'' \<or> c = CHR 0x27"

definition escape_char :: "char \<Rightarrow> string" where
  "escape_char c =
     (let n = (of_char c :: nat) in
      if qs_unreserved c then [c]
      else if n < 128 then percent n
      else percent (192 + n div 64) @ percent (128 + n mod 64))"

definition qsEscape :: "string \<Rightarrow> string" where
  "qsEscape s = concat (map escape_char s)"

function show_nat :: "nat \<Rightarrow> string" where
  "show_nat n = (if n < 10 then [char_of (48 + n)] else show_nat (n div 10) @ [char_of (48 + n mod 10)])"
  by pat_completeness auto
termination
  by (relation "measure id") auto

definition show_int :: "int \<Rightarrow> string" where
  "show_int i = (if i < 0 then CHR ''-'' # show_nat (nat (- i)) else show_nat (nat i))"

text \<open>
  \<open>stringifyPrimitive\<close>: strings, finite numbers and booleans; everything else is
  \<open>''\<close>. The decimal numeral is what JavaScript prints for the integers \<open>JNum\<close> is
  meant to carry (JavaScript switches to exponent notation from \<open>1e21\<close> on).
\<close>

fun stringifyPrimitive :: "jsval \<Rightarrow> string" where
  "stringifyPrimitive (JStr s) = s"
| "stringifyPrimitive (JNum n) = show_int n"
| "stringifyPrimitive (JBool b) = (if b then ''true'' else ''false'')"
| "stringifyPrimitive v = []"

fun join :: "string \<Rightarrow> string list \<Rightarrow> string" where
  "join sep [] = []"
| "join sep [x] = x"
| "join sep (x # y # ys) = x @ sep @ join sep (y # ys)"

definition qs_fields :: "obj \<Rightarrow> string \<Rightarrow> string list" where
  "qs_fields ob k =
     (let ks = qsEscape k @ ''=''; v = obj_get ob k in
      case v of
        JArray vs \<Rightarrow> map (\<lambda>x. ks @ qsEscape (stringifyPrimitive x)) vs
      | _ \<Rightarrow> [ks @ qsEscape (stringifyPrimitive v)])"

text \<open>\<open>querystring.stringify(obj)\<close> with the default separator \<open>&\<close> and assignment \<open>=\<close>.\<close>

definition stringify :: "obj \<Rightarrow> string" where
  "stringify ob = join ''&'' (concat (map (qs_fields ob) (Object_keys ob)))"

text \<open>
  The fields of a legacy \<open>Url\<close> object that \<open>url.format\<close> reads for a URL with a host
  and no credentials; \<open>None\<close> is \<open>null\<close>.
\<close>

record urlObject =
  protocol :: "string option"
  slashes :: bool
  host :: "string option"
  pathname :: "string option"
  search :: "string option"
  query :: "obj option"
  hash :: "string option"

definition or_empty :: "string option \<Rightarrow> string" where
  "or_empty x = (case x of None \<Rightarrow> [] | Some s \<Rightarrow> s)"

definition slashedProtocol :: "string \<Rightarrow> bool" where
  "slashedProtocol p \<longleftrightarrow>
     p \<in> set [''http'', ''http:'', ''https'', ''https:'', ''ftp'', ''ftp:'',
              ''gopher'', ''gopher:'', ''file'', ''file:'', ''ws'', ''ws:'', ''wss'', ''wss:'']"

definition escape_path :: "string \<Rightarrow> string" where
  "escape_path p =
     concat (map (\<lambda>c. if c = CHR ''#'' then ''%23'' else if c = CHR ''?'' then ''%3F'' else [c]) p)"

definition escape_hash :: "string \<Rightarrow> string" where
  "escape_hash p = concat (map (\<lambda>c. if c = CHR ''#'' then ''%23'' else [c]) p)"

definition format :: "urlObject \<Rightarrow> string" where
  "format u =
     (let protocol0 = or_empty (protocol u);
          pathname0 = or_empty (pathname u);
          hash0 = or_empty (hash u);
          host0 = or_empty (host u);
          query0 = (case query u of None \<Rightarrow> [] | Some q \<Rightarrow> stringify q);
          search0 = (if or_empty (search u) \<noteq> [] then or_empty (search u)
                     else if query0 \<noteq> [] then CHR ''?'' # query0 else []);
          protocol1 = (if protocol0 \<noteq> [] \<and> last protocol0 \<noteq> CHR '':''
                       then protocol0 @ '':'' else protocol0);
          pathname1 = escape_path pathname0;
          slashed = (slashes u \<or> slashedProtocol protocol1);
          pathname2 = (if slashed \<and> (slashes u \<or> host0 \<noteq> []) \<and> pathname1 \<noteq> []
                          \<and> hd pathname1 \<noteq> CHR ''/''
                       then CHR ''/'' # pathname1 else pathname1);
          host1 = (if slashed \<and> (slashes u \<or> host0 \<noteq> []) then ''//'' @ host0 else host0);
          search1 = escape_hash search0;
          hash1 = (if hash0 \<noteq> [] \<and> hd hash0 \<noteq> CHR ''#'' then CHR ''#'' # hash0 else hash0);
          search2 = (if search1 \<noteq> [] \<and> hd search1 \<noteq> CHR ''?'' then CHR ''?'' # search1 else search1)
      in protocol1 @ host1 @ pathname2 @ search2 @ hash1)"

section \<open>The constants of the module\<close>

definition API_ENDPOINT :: string where
  "API_ENDPOINT = ''https://api.dribbble.com/v2''"

definition OAUTH_ENDPOINT :: string where
  "OAUTH_ENDPOINT = ''https://dribbble.com/oauth''"

text \<open>\<open>OAUTH_URI = parse(OAUTH_ENDPOINT)\<close>, as Node's legacy parser returns it.\<close>

definition OAUTH_URI :: urlObject where
  "OAUTH_URI =
     \<lparr> protocol = Some ''https:'', slashes = True, host = Some ''dribbble.com'',
       pathname = Some ''/oauth'', search = None, query = None, hash = None \<rparr>"

record Pager =
  page :: int
  perPage :: int

text \<open>The \<open>Pager\<close> object as it is handed on: its two properties, untouched.\<close>

definition pager_object :: "Pager \<Rightarrow> obj" where
  "pager_object p = [(''page'', JNum (page p)), (''perPage'', JNum (perPage p))]"

record Client =
  config_clientId :: string
  config_clientSecret :: string
  config_scope :: string

datatype DribbbleError = DribbbleError (error_message: string) (error_code: int)

section \<open>The HTTP transport\<close>

text \<open>
  The axios instance is an external collaborator. What the client relies on is modelled:
  an instance holds its defaults (base URL, common headers, headers for POST); issuing a
  request merges the common headers with those of the verb, runs the request body --
  and only the body -- through \<open>transformRequest\<close>, and hands the request on. \<open>sent\<close>
  records, in order, the requests handed on: it is the spy on the transport.

  The library is built on axios 0.18, whose \<open>axios.create\<close> merges the global defaults
  into the new instance by reference: \<open>defaults.headers.common\<close> of every instance is
  one and the same object, \<open>axios.defaults.headers.common\<close>, while the headers for POST
  are an object of the instance's own. The field \<open>headers_common\<close> is therefore not a
  possession of the instance: it is the content of that shared object as the instance
  finds it when a method runs, and what a method leaves there is what every other
  instance finds afterwards. Section \<open>Clients in one process\<close> below holds the object
  itself and does this bookkeeping; the methods are written over one client and the
  shared object as that client sees it.
\<close>

datatype verb = GET | POST | DELETE

record axios_request =
  req_method :: verb
  req_baseURL :: string
  req_url :: string
  req_headers :: "(string \<times> string) list"
  req_params :: "obj option"
  req_data :: string

record axios_instance =
  defaults_baseURL :: string
  headers_common :: "(string \<times> string) list"
  headers_post :: "(string \<times> string) list"
  sent :: "axios_request list"

text \<open>
  \<open>transformRequest: [snakePipe, data => stringify(data)]\<close>. A request without a body
  has \<open>undefined\<close> data: \<open>pickBy(undefined)\<close> is \<open>{}\<close>, so \<open>snakePipe\<close> returns \<open>{}\<close>.
\<close>

definition transformRequest :: "obj option \<Rightarrow> string" where
  "transformRequest d = stringify (case d of None \<Rightarrow> [] | Some m \<Rightarrow> snakePipe m)"

definition merge_headers ::
  "(string \<times> string) list \<Rightarrow> (string \<times> string) list \<Rightarrow> (string \<times> string) list" where
  "merge_headers common specific = foldl (\<lambda>h (k, v). obj_set k v h) common specific"

text \<open>
  \<open>axios.create\<close> with the configuration of the constructor, in a process where nothing
  has written to the shared object yet: its content is axios's own default.
\<close>

definition axios_create :: axios_instance where
  "axios_create =
     \<lparr> defaults_baseURL = API_ENDPOINT,
       headers_common = [(''Accept'', ''application/json, text/plain, */*'')],
       headers_post = [(''Content-Type'', ''application/x-www-form-urlencoded'')],
       sent = [] \<rparr>"

definition axios_issue ::
  "verb \<Rightarrow> string \<Rightarrow> obj option \<Rightarrow> obj option \<Rightarrow> axios_instance
     \<Rightarrow> axios_request \<times> axios_instance" where
  "axios_issue m u ps d c =
     (let r = \<lparr> req_method = m, req_baseURL = defaults_baseURL c, req_url = u,
                 req_headers = merge_headers (headers_common c)
                                 (if m = POST then headers_post c else []),
                 req_params = ps, req_data = transformRequest d \<rparr>
      in (r, c\<lparr>sent := sent c @ [r]\<rparr>))"

section \<open>The Dribbble client\<close>

record dribbble =
  accessToken :: string
  clientId :: string
  clientSecret :: string
  scope :: string
  client :: axios_instance

text \<open>
  A method either throws a \<open>DribbbleError\<close> (and has changed nothing by then) or returns
  a value (for an endpoint method the pending request it issued); in both cases the
  client afterwards is the second component.
\<close>

type_synonym 'a outcome = "(DribbbleError + 'a) \<times> dribbble"

definition Dribbble :: "Client \<Rightarrow> dribbble" where
  "Dribbble clientConfig =
     \<lparr> accessToken = [],
       clientId = config_clientId clientConfig,
       clientSecret = config_clientSecret clientConfig,
       scope = config_scope clientConfig,
       client = axios_create \<rparr>"

definition enforceAuthorized :: "dribbble \<Rightarrow> DribbbleError + unit" where
  "enforceAuthorized this =
     (if accessToken this = [] then Inl (DribbbleError ''Need authorization.'' 403)
      else Inr ())"

definition client_get :: "string \<Rightarrow> obj option \<Rightarrow> dribbble \<Rightarrow> axios_request outcome" where
  "client_get u ps this =
     (let (r, c) = axios_issue GET u ps None (client this) in (Inr r, this\<lparr>client := c\<rparr>))"

definition client_post :: "string \<Rightarrow> obj option \<Rightarrow> dribbble \<Rightarrow> axios_request outcome" where
  "client_post u d this =
     (let (r, c) = axios_issue POST u None d (client this) in (Inr r, this\<lparr>client := c\<rparr>))"

definition client_delete :: "string \<Rightarrow> dribbble \<Rightarrow> axios_request outcome" where
  "client_delete u this =
     (let (r, c) = axios_issue DELETE u None None (client this) in (Inr r, this\<lparr>client := c\<rparr>))"

text \<open>A method that starts with \<open>this.enforceAuthorized()\<close>.\<close>

definition guarded :: "(dribbble \<Rightarrow> 'a outcome) \<Rightarrow> dribbble \<Rightarrow> 'a outcome" where
  "guarded body this =
     (case enforceAuthorized this of Inl e \<Rightarrow> (Inl e, this) | Inr _ \<Rightarrow> body this)"

definition optional :: "string option \<Rightarrow> jsval" where
  "optional x = (case x of None \<Rightarrow> JUndefined | Some s \<Rightarrow> JStr s)"

text \<open>The local \<open>query\<close> of \<open>getAuthorizationUrl\<close>; \<open>scope || this.scope\<close> is its second value.\<close>

definition authorizationQuery ::
  "string option \<Rightarrow> string option \<Rightarrow> string option \<Rightarrow> dribbble \<Rightarrow> obj" where
  "authorizationQuery scope' redirectUri state this =
     snakePipe
       [(''clientId'', JStr (clientId this)),
        (''scope'', (if truthy (optional scope') then optional scope' else JStr (scope this))),
        (''redirectUri'', optional redirectUri),
        (''state'', optional state)]"

definition getAuthorizationUrl ::
  "string option \<Rightarrow> string option \<Rightarrow> string option \<Rightarrow> dribbble \<Rightarrow> string outcome" where
  "getAuthorizationUrl scope' redirectUri state this =
     (Inr (format (OAUTH_URI\<lparr> pathname := Some ''/oauth/authorize'',
                              query := Some (authorizationQuery scope' redirectUri state this) \<rparr>)),
      this)"

definition exchangeAuthorizationCode ::
  "string \<Rightarrow> string option \<Rightarrow> dribbble \<Rightarrow> axios_request outcome" where
  "exchangeAuthorizationCode code redirectUri this =
     client_post (OAUTH_ENDPOINT @ ''/token'')
       (Some [(''clientId'', JStr (clientId this)),
              (''clientSecret'', JStr (clientSecret this)),
              (''code'', JStr code),
              (''redirectUri'', optional redirectUri)])
       this"

text \<open>
  \<open>setAccessToken\<close> stores the token in the client and assigns the \<open>Authorization\<close>
  property of the object \<open>this.client.defaults.headers.common\<close>, which is the shared one.
\<close>

definition setAccessToken :: "string \<Rightarrow> dribbble \<Rightarrow> dribbble" where
  "setAccessToken token this =
     this\<lparr> accessToken := token,
           client := (client this)\<lparr> headers_common :=
             obj_set ''Authorization'' (''Bearer '' @ token) (headers_common (client this)) \<rparr> \<rparr>"

definition createAttachment :: "string \<Rightarrow> jsval \<Rightarrow> dribbble \<Rightarrow> axios_request outcome" where
  "createAttachment ident file =
     guarded (client_post (''/shots/'' @ ident @ ''/attachments'') (Some [(''file'', file)]))"

definition deleteAttachment :: "string \<Rightarrow> string \<Rightarrow> dribbble \<Rightarrow> axios_request outcome" where
  "deleteAttachment ident attachmentId =
     guarded (client_delete (''/shots/'' @ ident @ ''/attachments/'' @ attachmentId))"

definition getLikes :: "Pager \<Rightarrow> dribbble \<Rightarrow> axios_request outcome" where
  "getLikes params = guarded (client_get ''/user/likes'' (Some (pager_object params)))"

definition hasLiked :: "string \<Rightarrow> dribbble \<Rightarrow> axios_request outcome" where
  "hasLiked ident = guarded (client_get (''/shots/'' @ ident @ ''/like'') None)"

definition likeShot :: "string \<Rightarrow> dribbble \<Rightarrow> axios_request outcome" where
  "likeShot ident = guarded (client_post (''/shots/'' @ ident @ ''/like'') None)"

definition unlikeShot :: "string \<Rightarrow> dribbble \<Rightarrow> axios_request outcome" where
  "unlikeShot ident = client_delete (''/shots/'' @ ident @ ''/like'')"

definition getUserProject :: "Pager \<Rightarrow> dribbble \<Rightarrow> axios_request outcome" where
  "getUserProject params = guarded (client_get ''/user/project'' (Some (pager_object params)))"

definition createProject :: "string \<Rightarrow> string \<Rightarrow> dribbble \<Rightarrow> axios_request outcome" where
  "createProject name description =
     guarded (client_post ''/projects'' (Some [(''name'', JStr name), (''description'', JStr description)]))"

definition updateProject :: "string \<Rightarrow> obj option \<Rightarrow> dribbble \<Rightarrow> axios_request outcome" where
  "updateProject ident d = guarded (client_post (''/projects/'' @ ident) d)"

definition deleteProject :: "string \<Rightarrow> dribbble \<Rightarrow> axios_request outcome" where
  "deleteProject ident = guarded (client_delete (''/projects/'' @ ident))"

definition getUserShots :: "Pager \<Rightarrow> dribbble \<Rightarrow> axios_request outcome" where
  "getUserShots params = guarded (client_get ''/user/shots'' (Some (pager_object params)))"

definition getPopularShots :: "Pager \<Rightarrow> dribbble \<Rightarrow> axios_request outcome" where
  "getPopularShots params = client_get ''/popular_shots'' (Some (pager_object params))"

definition getShot :: "string \<Rightarrow> dribbble \<Rightarrow> axios_request outcome" where
  "getShot ident = client_get (''/shots/'' @ ident) None"

definition createShot :: "obj option \<Rightarrow> dribbble \<Rightarrow> axios_request outcome" where
  "createShot d = guarded (client_post ''/shots'' d)"

definition updateShot :: "string \<Rightarrow> obj option \<Rightarrow> dribbble \<Rightarrow> axios_request outcome" where
  "updateShot ident d = guarded (client_post (''/shots/'' @ ident) d)"

definition deleteShot :: "string \<Rightarrow> dribbble \<Rightarrow> axios_request outcome" where
  "deleteShot ident = guarded (client_delete (''/shots/'' @ ident))"

definition getProfile :: "dribbble \<Rightarrow> axios_request outcome" where
  "getProfile = guarded (client_get ''/user'' None)"

section \<open>Sequences of calls\<close>

text \<open>
  A caller drives the client through its public methods. \<open>invoke\<close> performs one call and
  returns the client afterwards (a call that throws leaves it as it was);
  \<open>run\<close> performs a list of calls in order.
\<close>

datatype call =
    GetAuthorizationUrl "string option" "string option" "string option"
  | ExchangeAuthorizationCode string "string option"
  | SetAccessToken string
  | CreateAttachment string jsval
  | DeleteAttachment string string
  | GetLikes Pager
  | HasLiked string
  | LikeShot string
  | UnlikeShot string
  | GetUserProject Pager
  | CreateProject string string
  | UpdateProject string "obj option"
  | DeleteProject string
  | GetUserShots Pager
  | GetPopularShots Pager
  | GetShot string
  | CreateShot "obj option"
  | UpdateShot string "obj option"
  | DeleteShot string
  | GetProfile

fun invoke :: "call \<Rightarrow> dribbble \<Rightarrow> dribbble" where
  "invoke (GetAuthorizationUrl s r st) this = snd (getAuthorizationUrl s r st this)"
| "invoke (ExchangeAuthorizationCode c r) this = snd (exchangeAuthorizationCode c r this)"
| "invoke (SetAccessToken t) this = setAccessToken t this"
| "invoke (CreateAttachment i f) this = snd (createAttachment i f this)"
| "invoke (DeleteAttachment i a) this = snd (deleteAttachment i a this)"
| "invoke (GetLikes p) this = snd (getLikes p this)"
| "invoke (HasLiked i) this = snd (hasLiked i this)"
| "invoke (LikeShot i) this = snd (likeShot i this)"
| "invoke (UnlikeShot i) this = snd (unlikeShot i this)"
| "invoke (GetUserProject p) this = snd (getUserProject p this)"
| "invoke (CreateProject n d) this = snd (createProject n d this)"
| "invoke (UpdateProject i d) this = snd (updateProject i d this)"
| "invoke (DeleteProject i) this = snd (deleteProject i this)"
| "invoke (GetUserShots p) this = snd (getUserShots p this)"
| "invoke (GetPopularShots p) this = snd (getPopularShots p this)"
| "invoke (GetShot i) this = snd (getShot i this)"
| "invoke (CreateShot d) this = snd (createShot d this)"
| "invoke (UpdateShot i d) this = snd (updateShot i d this)"
| "invoke (DeleteShot i) this = snd (deleteShot i this)"
| "invoke GetProfile this = snd (getProfile this)"

fun is_SetAccessToken :: "call \<Rightarrow> bool" where
  "is_SetAccessToken (SetAccessToken t) = True"
| "is_SetAccessToken c = False"

definition run :: "call list \<Rightarrow> dribbble \<Rightarrow> dribbble" where
  "run cs this = foldl (\<lambda>s c. invoke c s) this cs"

text \<open>What a protected method does without a token.\<close>

definition unauthorized :: "dribbble \<Rightarrow> axios_request outcome" where
  "unauthorized this = (Inl (DribbbleError ''Need authorization.'' 403), this)"

text \<open>The request carries the header \<open>Authorization: Bearer <token>\<close>.\<close>

definition carries_bearer :: "string \<Rightarrow> axios_request \<Rightarrow> bool" where
  "carries_bearer token r \<longleftrightarrow>
     map_of (req_headers r) ''Authorization'' = Some (''Bearer '' @ token)"

section \<open>Auxiliary notions for the proofs\<close>




text \<open>
  The invariant behind the bearer header: the common headers hold the token, the headers
  for POST do not override it, and every request handed on from position \<open>n\<close> of the
  log onwards carries it.
\<close>

definition bearer_inv :: "string \<Rightarrow> nat \<Rightarrow> dribbble \<Rightarrow> bool" where
  "bearer_inv t n this \<longleftrightarrow>
     map_of (headers_common (client this)) ''Authorization'' = Some (''Bearer '' @ t)
     \<and> ''Authorization'' \<notin> fst ` set (headers_post (client this))
     \<and> n \<le> length (sent (client this))
     \<and> list_all (carries_bearer t) (drop n (sent (client this)))"

text \<open>A configuration and a client to evaluate the methods on.\<close>

definition example_config :: Client where
  "example_config =
     \<lparr> config_clientId = ''abc'', config_clientSecret = ''sec'', config_scope = ''public'' \<rparr>"

section \<open>Clients in one process\<close>

text \<open>
  A process holds the one object \<open>axios.defaults.headers.common\<close> and the clients
  constructed so far, addressed by their position. \<open>attach\<close> is a client as a method
  finds it: with the present content of the shared object. \<open>detach\<close> puts back what the
  method left: the client, and the content of the shared object for everybody.
  A call on a position that holds no client is \<open>None\<close>.
\<close>

record process =
  axios_common :: "(string \<times> string) list"
  instances :: "dribbble list"

definition startup :: process where
  "startup = \<lparr> axios_common = headers_common axios_create, instances = [] \<rparr>"

definition attach :: "process \<Rightarrow> dribbble \<Rightarrow> dribbble" where
  "attach P this = this\<lparr> client := (client this)\<lparr> headers_common := axios_common P \<rparr> \<rparr>"

definition detach :: "nat \<Rightarrow> dribbble \<Rightarrow> process \<Rightarrow> process" where
  "detach i this P =
     \<lparr> axios_common = headers_common (client this), instances = (instances P)[i := this] \<rparr>"

text \<open>\<open>new Dribbble(clientConfig)\<close>; the new client has the position \<open>length (instances P)\<close>.\<close>

definition new_Dribbble :: "Client \<Rightarrow> process \<Rightarrow> process" where
  "new_Dribbble clientConfig P =
     P\<lparr> instances := instances P @ [attach P (Dribbble clientConfig)] \<rparr>"

definition call_on ::
  "nat \<Rightarrow> (dribbble \<Rightarrow> 'a outcome) \<Rightarrow> process \<Rightarrow> (DribbbleError + 'a) option \<times> process" where
  "call_on i method P =
     (if i < length (instances P)
      then (let (r, this) = method (attach P (instances P ! i)) in (Some r, detach i this P))
      else (None, P))"

definition setAccessToken_on :: "nat \<Rightarrow> string \<Rightarrow> process \<Rightarrow> process" where
  "setAccessToken_on i token P =
     (if i < length (instances P)
      then detach i (setAccessToken token (attach P (instances P ! i))) P
      else P)"

text \<open>
  Two clients \<open>a\<close> (position 0) and \<open>b\<close> (position 1) in a fresh process, after
  \<open>a.setAccessToken("A")\<close> and then \<open>b.setAccessToken("B")\<close>.
\<close>

definition two_clients :: process where
  "two_clients =
     setAccessToken_on 1 ''B''
       (setAccessToken_on 0 ''A''
          (new_Dribbble example_config (new_Dribbble example_config startup)))"


section \<open>Facts about objects\<close>

lemma map_of_obj_replace:
  "map_of (obj_replace k v kvs) x =
     (if x = k \<and> map_of kvs k \<noteq> None then Some v else map_of kvs x)"
  by (induction kvs) auto

lemma map_of_insert_index:
  "map_of kvs k = None \<Longrightarrow>
     map_of (insert_index k v kvs) x = (if x = k then Some v else map_of kvs x)"
  by (induction kvs) (auto split: if_splits)

lemma map_of_obj_set: "map_of (obj_set k v kvs) = (map_of kvs)(k \<mapsto> v)"
proof (rule ext)
  fix x
  show "map_of (obj_set k v kvs) x = ((map_of kvs)(k \<mapsto> v)) x"
  proof (cases "map_of kvs k = None")
    case True
    then have "k \<notin> set (Object_keys kvs)"
      by (simp add: Object_keys_def map_of_eq_None_iff)
    with True show ?thesis
      by (auto simp: obj_set_def map_of_insert_index map_add_def split: option.splits)
  next
    case False
    then have "k \<in> set (Object_keys kvs)"
      by (simp add: Object_keys_def map_of_eq_None_iff)
    with False show ?thesis
      by (simp add: obj_set_def map_of_obj_replace)
  qed
qed

lemma set_Object_keys: "set (Object_keys kvs) = dom (map_of kvs)"
  by (simp add: Object_keys_def dom_map_of_conv_image_fst)

lemma obj_replace_twice: "obj_replace k v2 (obj_replace k v1 kvs) = obj_replace k v2 kvs"
  by (induction kvs) auto

lemma obj_replace_insert_index:
  "k \<notin> fst ` set kvs \<Longrightarrow> obj_replace k v2 (insert_index k v1 kvs) = insert_index k v2 kvs"
  by (induction kvs) auto

lemma obj_replace_snoc:
  "k \<notin> fst ` set kvs \<Longrightarrow> obj_replace k v2 (kvs @ [(k, v1)]) = kvs @ [(k, v2)]"
  by (induction kvs) auto

lemma obj_set_twice: "obj_set k v2 (obj_set k v1 kvs) = obj_set k v2 kvs"
proof -
  have mem: "k \<in> set (Object_keys (obj_set k v1 kvs))"
    by (simp add: set_Object_keys map_of_obj_set)
  show ?thesis
  proof (cases "k \<in> set (Object_keys kvs)")
    case True
    with mem show ?thesis
      unfolding obj_set_def[of k v2] by (simp add: obj_set_def obj_replace_twice)
  next
    case False
    then have "k \<notin> fst ` set kvs" by (simp add: Object_keys_def)
    with mem False show ?thesis
      unfolding obj_set_def[of k v2]
      by (simp add: obj_set_def obj_replace_insert_index obj_replace_snoc)
  qed
qed

section \<open>Facts about the case functions\<close>

text \<open>The examples of lodash's documentation for \<open>camelCase\<close> and \<open>snakeCase\<close>.\<close>

lemma lodash_documented_examples:
  "camelCase ''Foo Bar'' = ''fooBar''"
  "camelCase ''--foo-bar--'' = ''fooBar''"
  "camelCase ''__FOO_BAR__'' = ''fooBar''"
  "snakeCase ''Foo Bar'' = ''foo_bar''"
  "snakeCase ''fooBar'' = ''foo_bar''"
  "snakeCase ''--FOO-BAR--'' = ''foo_bar''"
  by code_simp+

subsection \<open>Characters\<close>


lemma lower_char_upper: "is_upper c \<Longrightarrow> is_lower (lower_char c)"
  by (auto simp: is_lower_def is_upper_def lower_char_def)







lemma toLowerCase_upper: "list_all is_upper w \<Longrightarrow> list_all is_lower (toLowerCase w)"
  by (induction w) (auto simp: toLowerCase_def lower_char_upper)


subsection \<open>Closed forms of the two compounders\<close>







subsection \<open>Ordinal suffixes\<close>







subsection \<open>A lowered word is read back as one word\<close>




lemma drop_length_takeWhile: "drop (length (takeWhile P xs)) xs = dropWhile P xs"
  by (induction xs) auto






declare unicodeWords.simps [simp del] asciiWords.simps [simp del]







subsection \<open>Every word, lowered, is a lowered word\<close>












subsection \<open>asciiWords is unicodeWords where lodash chooses it\<close>














subsection \<open>camelCase after snakeCase\<close>









section \<open>Facts about the pipes\<close>

subsection \<open>Folding assignments into an object\<close>

lemma map_of_fold_assign:
  "map_of (foldl (\<lambda>ret key. obj_set (f key) (g key) ret) acc keys) k' =
     (case filter (\<lambda>k. f k = k') keys of
        [] \<Rightarrow> map_of acc k'
      | ks \<Rightarrow> Some (g (last ks)))"
proof (induction keys rule: rev_induct)
  case Nil
  then show ?case by simp
next
  case (snoc k keys)
  then show ?case
    by (cases "filter (\<lambda>k. f k = k') keys") (simp_all add: map_of_obj_set)
qed

lemma map_of_pickBy_fold:
  "map_of (foldl (\<lambda>result key.
              if truthy (obj_get data key) then obj_set key (obj_get data key) result
              else result) acc keys) k =
     (if k \<in> set keys \<and> truthy (obj_get data k) then Some (obj_get data k)
      else map_of acc k)"
  by (induction keys rule: rev_induct) (auto simp: map_of_obj_set)

lemma map_of_pickBy:
  "map_of (pickBy data) k =
     (if k \<in> set (Object_keys data) \<and> truthy (obj_get data k) then Some (obj_get data k)
      else None)"
  by (simp add: pickBy_def map_of_pickBy_fold)

lemma keys_pickBy:
  "set (Object_keys (pickBy data)) = {k \<in> set (Object_keys data). truthy (obj_get data k)}"
  by (auto simp: set_Object_keys map_of_pickBy dom_def)

lemma map_of_snakePipe:
  "map_of (snakePipe data) k' =
     (case filter (\<lambda>k. snakeCase k = k') (Object_keys (pickBy data)) of
        [] \<Rightarrow> None
      | ks \<Rightarrow> Some (obj_get data (last ks)))"
  by (simp add: snakePipe_def map_of_fold_assign split: list.splits)

lemma map_of_camelPipe:
  "map_of (camelPipe data) k' =
     (case filter (\<lambda>k. camelCase k = k') (Object_keys data) of
        [] \<Rightarrow> None
      | ks \<Rightarrow> Some (obj_get data (last ks)))"
  by (simp add: camelPipe_def map_of_fold_assign split: list.splits)

lemma keys_fold_assign:
  "set (Object_keys (foldl (\<lambda>ret key. obj_set (f key) (g key) ret) [] keys)) = f ` set keys"
proof -
  have "map_of (foldl (\<lambda>ret key. obj_set (f key) (g key) ret) [] keys) k' \<noteq> None
      \<longleftrightarrow> k' \<in> f ` set keys" for k'
    unfolding map_of_fold_assign
    by (cases "filter (\<lambda>k. f k = k') keys") (auto simp: filter_empty_conv dest: filter_eq_ConsD)
  then show ?thesis by (auto simp: set_Object_keys dom_def)
qed

lemma keys_snakePipe:
  "set (Object_keys (snakePipe data))
     = snakeCase ` {k \<in> set (Object_keys data). truthy (obj_get data k)}"
proof -
  have "set (Object_keys (snakePipe data)) = snakeCase ` set (Object_keys (pickBy data))"
    unfolding snakePipe_def by (rule keys_fold_assign)
  then show ?thesis by (simp only: keys_pickBy)
qed


text \<open>The key that wins: the last one in enumeration order with the given image.\<close>

lemma last_filter_unique:
  assumes "k \<in> set keys" "\<forall>k' \<in> set keys. f k' = f k \<longrightarrow> k' = k"
  shows "filter (\<lambda>x. f x = f k) keys \<noteq> [] \<and> last (filter (\<lambda>x. f x = f k) keys) = k"
proof -
  from assms(1) have ne: "filter (\<lambda>x. f x = f k) keys \<noteq> []"
    by (auto simp: filter_empty_conv)
  then have "last (filter (\<lambda>x. f x = f k) keys) \<in> set (filter (\<lambda>x. f x = f k) keys)"
    by (rule last_in_set)
  with assms(2) ne show ?thesis by auto
qed

lemma fold_assign_unique:
  assumes "k \<in> set keys" "\<forall>k' \<in> set keys. f k' = f k \<longrightarrow> k' = k"
  shows "map_of (foldl (\<lambda>ret key. obj_set (f key) (g key) ret) acc keys) (f k) = Some (g k)"
  using last_filter_unique[OF assms]
  by (cases "filter (\<lambda>x. f x = f k) keys") (simp_all add: map_of_fold_assign)

lemma fold_assign_origin:
  assumes "k' \<in> f ` set keys"
  shows "\<exists>k \<in> set keys. f k = k'
     \<and> map_of (foldl (\<lambda>ret key. obj_set (f key) (g key) ret) acc keys) k' = Some (g k)"
proof -
  from assms have ne: "filter (\<lambda>x. f x = k') keys \<noteq> []"
    by (auto simp: filter_empty_conv)
  then have "last (filter (\<lambda>x. f x = k') keys) \<in> set (filter (\<lambda>x. f x = k') keys)"
    by (rule last_in_set)
  then have "last (filter (\<lambda>x. f x = k') keys) \<in> set keys"
    and "f (last (filter (\<lambda>x. f x = k') keys)) = k'"
    by simp_all
  moreover from ne have "map_of (foldl (\<lambda>ret key. obj_set (f key) (g key) ret) acc keys) k'
      = Some (g (last (filter (\<lambda>x. f x = k') keys)))"
    by (cases "filter (\<lambda>x. f x = k') keys") (simp_all add: map_of_fold_assign)
  ultimately show ?thesis by blast
qed

subsection \<open>Values and origins\<close>



lemma snakePipe_value:
  assumes "k \<in> set (Object_keys M)" "truthy (obj_get M k)"
    and "\<forall>k' \<in> set (Object_keys M). truthy (obj_get M k') \<longrightarrow> snakeCase k' = snakeCase k \<longrightarrow> k' = k"
  shows "obj_get (snakePipe M) (snakeCase k) = obj_get M k"
proof -
  from assms(1,2) have "k \<in> set (Object_keys (pickBy M))"
    by (simp add: keys_pickBy)
  moreover from assms(3)
  have "\<forall>k' \<in> set (Object_keys (pickBy M)). snakeCase k' = snakeCase k \<longrightarrow> k' = k"
    by (simp add: keys_pickBy)
  ultimately have "map_of (snakePipe M) (snakeCase k) = Some (obj_get M k)"
    unfolding snakePipe_def by (rule fold_assign_unique)
  then show ?thesis by (simp add: obj_get_def)
qed

lemma snakePipe_origin:
  assumes "k' \<in> set (Object_keys (snakePipe M))"
  shows "\<exists>k \<in> set (Object_keys M). truthy (obj_get M k) \<and> snakeCase k = k'
           \<and> obj_get (snakePipe M) k' = obj_get M k"
proof -
  from assms have "k' \<in> snakeCase ` set (Object_keys (pickBy M))"
    by (simp add: keys_snakePipe keys_pickBy)
  then obtain k where "k \<in> set (Object_keys (pickBy M))" "snakeCase k = k'"
    "map_of (snakePipe M) k' = Some (obj_get M k)"
    unfolding snakePipe_def using fold_assign_origin[of k' snakeCase] by blast
  then show ?thesis
    by (auto simp: keys_pickBy obj_get_def)
qed




section \<open>The pipes on the empty mapping\<close>

text \<open>
  Claim C9. Both transforms are HOL functions on mappings, hence pure and total, and
  each maps the empty mapping to the empty mapping.
\<close>

theorem pipes_on_empty: "snakePipe [] = [] \<and> camelPipe [] = []"
  by (simp add: snakePipe_def camelPipe_def pickBy_def Object_keys_def)


section \<open>The outbound transform\<close>

lemma snakePipe_examples:
  "snakePipe [(''clientId'', JStr ''x''), (''state'', JUndefined)] = [(''client_id'', JStr ''x'')]"
  "snakePipe [(''fooBar'', JNum 1), (''foo_bar'', JNum 2)] = [(''foo_bar'', JNum 2)]"
  "snakeCase ''fooBar'' = ''foo_bar''" "snakeCase ''foo_bar'' = ''foo_bar''"
  "snakeCase ''perPage'' = ''per_page''" "snakeCase ''clientId'' = ''client_id''"
  "snakeCase ''state'' = ''state''"
  by code_simp+

text \<open>
  Claim C3, as amended. \<open>snakePipe\<close> returns a mapping whose keys are exactly the
  snake_case forms of the keys of its argument that hold a truthy value; the empty
  string, \<open>0\<close>, \<open>false\<close>, \<open>null\<close> and \<open>undefined\<close> are not truthy. Every value of
  the result is the unchanged value of a retained key with that snake_case form, and a
  retained key whose snake_case form no other retained key shares finds its own value
  under it. For instance \<open>{clientId: "x", state: undefined}\<close> becomes
  \<open>{client_id: "x"}\<close>.
\<close>

theorem snakePipe_keeps_truthy:
  "set (Object_keys (snakePipe M))
      = snakeCase ` {k \<in> set (Object_keys M). truthy (obj_get M k)}
   \<and> (\<forall>k \<in> set (Object_keys M).
         truthy (obj_get M k) \<longrightarrow>
         (\<forall>k' \<in> set (Object_keys M).
            truthy (obj_get M k') \<longrightarrow> snakeCase k' = snakeCase k \<longrightarrow> k' = k) \<longrightarrow>
         obj_get (snakePipe M) (snakeCase k) = obj_get M k)
   \<and> (\<forall>k' \<in> set (Object_keys (snakePipe M)).
         \<exists>k \<in> set (Object_keys M). truthy (obj_get M k) \<and> snakeCase k = k'
           \<and> obj_get (snakePipe M) k' = obj_get M k)
   \<and> \<not> truthy (JStr []) \<and> \<not> truthy (JNum 0) \<and> \<not> truthy (JBool False)
   \<and> \<not> truthy JNull \<and> \<not> truthy JUndefined
   \<and> snakePipe [(''clientId'', JStr ''x''), (''state'', JUndefined)]
       = [(''client_id'', JStr ''x'')]"
  using keys_snakePipe[of M] snakePipe_value[of _ M] snakePipe_origin[of _ M]
    snakePipe_examples(1)
  by (intro conjI ballI impI) simp_all

theorem snakePipe_keeps_truthy_witness:
  "truthy (obj_get [(''clientId'', JStr ''x''), (''state'', JUndefined), (''perPage'', JNum 10)]
             ''perPage'')
   \<and> obj_get (snakePipe [(''clientId'', JStr ''x''), (''state'', JUndefined),
                          (''perPage'', JNum 10)]) (snakeCase ''perPage'') = JNum 10
   \<and> snakeCase ''perPage'' = ''per_page''"
proof -
  let ?M = "[(''clientId'', JStr ''x''), (''state'', JUndefined), (''perPage'', JNum 10)]"
  have k: "''perPage'' \<in> set (Object_keys ?M)" by (simp add: Object_keys_def)
  have t: "truthy (obj_get ?M ''perPage'')" by (simp add: obj_get_def)
  have u: "\<forall>k' \<in> set (Object_keys ?M).
      truthy (obj_get ?M k') \<longrightarrow> snakeCase k' = snakeCase ''perPage'' \<longrightarrow> k' = ''perPage''"
    by (simp add: Object_keys_def obj_get_def snakePipe_examples)
  from snakePipe_keeps_truthy[of ?M] k t u
  have "obj_get (snakePipe ?M) (snakeCase ''perPage'') = obj_get ?M ''perPage''"
    by blast
  with t show ?thesis by (simp add: obj_get_def snakePipe_examples)
qed

text \<open>
  Claim C3 as stated fails where two retained keys share a snake_case form: in
  \<open>{fooBar: 1, foo_bar: 2}\<close> the key \<open>fooBar\<close> is retained, but under \<open>foo_bar\<close>
  the result holds \<open>2\<close>, the value of the key assigned last.
\<close>

theorem snakePipe_collision:
  "truthy (obj_get [(''fooBar'', JNum 1), (''foo_bar'', JNum 2)] ''fooBar'')
   \<and> snakePipe [(''fooBar'', JNum 1), (''foo_bar'', JNum 2)] = [(''foo_bar'', JNum 2)]
   \<and> obj_get (snakePipe [(''fooBar'', JNum 1), (''foo_bar'', JNum 2)]) (snakeCase ''fooBar'')
       \<noteq> obj_get [(''fooBar'', JNum 1), (''foo_bar'', JNum 2)] ''fooBar''"
  by (simp add: snakePipe_examples obj_get_def)

section \<open>The round trip through both transforms\<close>





section \<open>The authorization guard\<close>

lemma guarded_unauthorized: "accessToken this = [] \<Longrightarrow> guarded body this = unauthorized this"
  by (simp add: guarded_def enforceAuthorized_def unauthorized_def)

lemma guarded_authorized: "accessToken this \<noteq> [] \<Longrightarrow> guarded body this = body this"
  by (simp add: guarded_def enforceAuthorized_def)

lemmas method_defs =
  createAttachment_def deleteAttachment_def getLikes_def hasLiked_def likeShot_def
  unlikeShot_def getUserProject_def createProject_def updateProject_def deleteProject_def
  getUserShots_def getPopularShots_def getShot_def createShot_def updateShot_def
  deleteShot_def getProfile_def exchangeAuthorizationCode_def

text \<open>
  Claim C1. With an empty stored token, each of the fourteen protected methods throws
  the \<open>DribbbleError\<close> with message \<open>Need authorization.\<close> and code \<open>403\<close>, whatever
  its arguments, and the client afterwards is the client before: in particular the log
  of requests handed to the transport has not grown.
\<close>

theorem protected_methods_need_token:
  assumes "accessToken this = []"
  shows "unauthorized this = (Inl (DribbbleError ''Need authorization.'' 403), this)
    \<and> createAttachment ident file this = unauthorized this
    \<and> deleteAttachment ident attachmentId this = unauthorized this
    \<and> getLikes params this = unauthorized this
    \<and> hasLiked ident this = unauthorized this
    \<and> likeShot ident this = unauthorized this
    \<and> getUserProject params this = unauthorized this
    \<and> createProject name description this = unauthorized this
    \<and> updateProject ident d this = unauthorized this
    \<and> deleteProject ident this = unauthorized this
    \<and> getUserShots params this = unauthorized this
    \<and> createShot d this = unauthorized this
    \<and> updateShot ident d this = unauthorized this
    \<and> deleteShot ident this = unauthorized this
    \<and> getProfile this = unauthorized this"
  using assms by (simp add: guarded_unauthorized method_defs) (simp add: unauthorized_def)

theorem protected_methods_need_token_witness:
  "accessToken (Dribbble example_config) = []
    \<and> createAttachment ''7'' (JBuffer ''png'') (Dribbble example_config)
        = (Inl (DribbbleError ''Need authorization.'' 403), Dribbble example_config)
    \<and> getLikes \<lparr>page = 1, perPage = 10\<rparr> (Dribbble example_config)
        = (Inl (DribbbleError ''Need authorization.'' 403), Dribbble example_config)
    \<and> getProfile (Dribbble example_config)
        = (Inl (DribbbleError ''Need authorization.'' 403), Dribbble example_config)
    \<and> sent (client (snd (getProfile (Dribbble example_config)))) = []"
proof -
  have h: "accessToken (Dribbble example_config) = []"
    by (simp add: Dribbble_def)
  have s: "sent (client (Dribbble example_config)) = []"
    by (simp add: Dribbble_def axios_create_def)
  from protected_methods_need_token
    [OF h, of "''7''" "JBuffer ''png''" "''3''" "\<lparr>page = 1, perPage = 10\<rparr>" "''n''" "''d''" None]
  show ?thesis using h s by simp
qed

text \<open>One request through the transport: what is handed on and what stays.\<close>

lemma client_get_issues:
  "\<exists>r. client_get u ps this
        = (Inr r, this\<lparr>client := (client this)\<lparr>sent := sent (client this) @ [r]\<rparr>\<rparr>)
      \<and> req_method r = GET \<and> req_url r = u \<and> req_params r = ps"
  by (simp add: client_get_def axios_issue_def Let_def)

lemma client_delete_issues:
  "\<exists>r. client_delete u this
        = (Inr r, this\<lparr>client := (client this)\<lparr>sent := sent (client this) @ [r]\<rparr>\<rparr>)
      \<and> req_method r = DELETE \<and> req_url r = u"
  by (simp add: client_delete_def axios_issue_def Let_def)


text \<open>
  Claim C8. \<open>getPopularShots\<close>, \<open>getShot\<close> and \<open>unlikeShot\<close> hand a request to the
  transport for every argument and every client, so also for one whose token is empty:
  the outcome is the pending request, never the \<open>DribbbleError\<close>, and the log grows by
  exactly that request.
\<close>

theorem unprotected_methods_issue_request:
  "(\<exists>r. getPopularShots params this
          = (Inr r, this\<lparr>client := (client this)\<lparr>sent := sent (client this) @ [r]\<rparr>\<rparr>)
        \<and> req_method r = GET \<and> req_url r = ''/popular_shots'')
   \<and> (\<exists>r. getShot ident this
          = (Inr r, this\<lparr>client := (client this)\<lparr>sent := sent (client this) @ [r]\<rparr>\<rparr>)
        \<and> req_method r = GET \<and> req_url r = ''/shots/'' @ ident)
   \<and> (\<exists>r. unlikeShot ident this
          = (Inr r, this\<lparr>client := (client this)\<lparr>sent := sent (client this) @ [r]\<rparr>\<rparr>)
        \<and> req_method r = DELETE \<and> req_url r = ''/shots/'' @ ident @ ''/like'')"
proof -
  obtain r1 where "client_get ''/popular_shots'' (Some (pager_object params)) this
      = (Inr r1, this\<lparr>client := (client this)\<lparr>sent := sent (client this) @ [r1]\<rparr>\<rparr>)"
      "req_method r1 = GET" "req_url r1 = ''/popular_shots''"
    using client_get_issues by blast
  moreover obtain r2 where "client_get (''/shots/'' @ ident) None this
      = (Inr r2, this\<lparr>client := (client this)\<lparr>sent := sent (client this) @ [r2]\<rparr>\<rparr>)"
      "req_method r2 = GET" "req_url r2 = ''/shots/'' @ ident"
    using client_get_issues by blast
  moreover obtain r3 where "client_delete (''/shots/'' @ ident @ ''/like'') this
      = (Inr r3, this\<lparr>client := (client this)\<lparr>sent := sent (client this) @ [r3]\<rparr>\<rparr>)"
      "req_method r3 = DELETE" "req_url r3 = ''/shots/'' @ ident @ ''/like''"
    using client_delete_issues by blast
  ultimately show ?thesis
    by (simp add: getPopularShots_def getShot_def unlikeShot_def)
qed

lemma unprotected_example:
  "sent (client (snd (unlikeShot ''42'' (Dribbble example_config))))
     = [\<lparr> req_method = DELETE, req_baseURL = ''https://api.dribbble.com/v2'',
           req_url = ''/shots/42/like'',
           req_headers = [(''Accept'', ''application/json, text/plain, */*'')],
           req_params = None, req_data = [] \<rparr>]"
  by (simp add: unlikeShot_def client_delete_def axios_issue_def Let_def Dribbble_def
      axios_create_def API_ENDPOINT_def merge_headers_def transformRequest_def stringify_def
      Object_keys_def)

section \<open>Installing the token\<close>

lemma setAccessToken_twice:
  "setAccessToken t2 (setAccessToken t1 this) = setAccessToken t2 this"
  by (simp add: setAccessToken_def obj_set_twice)

lemma map_of_merge_headers:
  "k \<notin> fst ` set specific \<Longrightarrow> map_of (merge_headers common specific) k = map_of common k"
  unfolding merge_headers_def
  by (induction specific arbitrary: common) (auto simp: map_of_obj_set)

lemma bearer_inv_issue:
  assumes "bearer_inv t n this"
  shows "bearer_inv t n (this\<lparr>client := snd (axios_issue m u ps d (client this))\<rparr>)"
  using assms
  by (auto simp: bearer_inv_def axios_issue_def Let_def carries_bearer_def map_of_merge_headers)

lemma bearer_inv_get: "bearer_inv t n this \<Longrightarrow> bearer_inv t n (snd (client_get u ps this))"
  using bearer_inv_issue[of t n this GET u ps None]
  by (simp add: client_get_def split_beta)

lemma bearer_inv_post: "bearer_inv t n this \<Longrightarrow> bearer_inv t n (snd (client_post u d this))"
  using bearer_inv_issue[of t n this POST u None d]
  by (simp add: client_post_def split_beta)

lemma bearer_inv_delete: "bearer_inv t n this \<Longrightarrow> bearer_inv t n (snd (client_delete u this))"
  using bearer_inv_issue[of t n this DELETE u None None]
  by (simp add: client_delete_def split_beta)

lemma bearer_inv_guarded:
  "bearer_inv t n this \<Longrightarrow> bearer_inv t n (snd (body this))
     \<Longrightarrow> bearer_inv t n (snd (guarded body this))"
  by (simp add: guarded_def split: sum.splits)

lemma bearer_inv_invoke:
  "bearer_inv t n this \<Longrightarrow> \<not> is_SetAccessToken c \<Longrightarrow> bearer_inv t n (invoke c this)"
  by (cases c)
     (simp_all add: bearer_inv_guarded bearer_inv_get bearer_inv_post bearer_inv_delete
        method_defs getAuthorizationUrl_def)

lemma bearer_inv_run:
  "bearer_inv t n this \<Longrightarrow> list_all (\<lambda>c. \<not> is_SetAccessToken c) cs
     \<Longrightarrow> bearer_inv t n (run cs this)"
  unfolding run_def by (induction cs arbitrary: this) (auto simp: bearer_inv_invoke)

lemma headers_post_client:
  "headers_post (client (snd (client_get u ps this))) = headers_post (client this)"
  "headers_post (client (snd (client_post u d this))) = headers_post (client this)"
  "headers_post (client (snd (client_delete u this))) = headers_post (client this)"
  by (simp_all add: client_get_def client_post_def client_delete_def axios_issue_def Let_def)

lemma headers_post_guarded:
  "headers_post (client (snd (body this))) = headers_post (client this) \<Longrightarrow>
   headers_post (client (snd (guarded body this))) = headers_post (client this)"
  by (simp add: guarded_def split: sum.splits)

lemma headers_post_invoke: "headers_post (client (invoke c this)) = headers_post (client this)"
  by (cases c)
     (simp_all add: headers_post_guarded headers_post_client setAccessToken_def method_defs
        getAuthorizationUrl_def)

lemma headers_post_run: "headers_post (client (run cs this)) = headers_post (client this)"
  unfolding run_def by (induction cs arbitrary: this) (auto simp: headers_post_invoke)

lemma bearer_inv_setAccessToken:
  "''Authorization'' \<notin> fst ` set (headers_post (client this)) \<Longrightarrow>
   bearer_inv t (length (sent (client this))) (setAccessToken t this)"
  by (simp add: bearer_inv_def setAccessToken_def map_of_obj_set)

text \<open>
  A client that has the shared object to itself: take a client built by the constructor
  in a fresh process that has been through any calls \<open>cs0\<close>, and install the token
  \<open>t\<close>. Whatever calls \<open>cs\<close> on this client follow, as long as none of them is
  \<open>setAccessToken\<close> and nobody else writes to the shared object, every request handed
  to the transport after the installation carries \<open>Authorization: Bearer t\<close>.
  Installing the same token twice is installing it once, and of two installations the
  later one decides the stored token and the header.
\<close>

lemma isolated_client_bearer_header:
  "((\<forall>c \<in> set cs. \<not> is_SetAccessToken c) \<longrightarrow>
      (\<forall>r \<in> set (drop (length (sent (client (run cs0 (Dribbble cfg)))))
                  (sent (client (run cs (setAccessToken t (run cs0 (Dribbble cfg))))))).
         carries_bearer t r))
   \<and> setAccessToken t (setAccessToken t this) = setAccessToken t this
   \<and> setAccessToken t (setAccessToken t' this) = setAccessToken t this
   \<and> accessToken (setAccessToken t this) = t
   \<and> map_of (headers_common (client (setAccessToken t this))) ''Authorization''
       = Some (''Bearer '' @ t)"
proof -
  let ?s0 = "run cs0 (Dribbble cfg)"
  have "headers_post (client ?s0) = [(''Content-Type'', ''application/x-www-form-urlencoded'')]"
    by (simp add: headers_post_run Dribbble_def axios_create_def)
  then have "bearer_inv t (length (sent (client ?s0))) (setAccessToken t ?s0)"
    by (intro bearer_inv_setAccessToken) simp
  then have "list_all (\<lambda>c. \<not> is_SetAccessToken c) cs \<Longrightarrow>
      bearer_inv t (length (sent (client ?s0))) (run cs (setAccessToken t ?s0))"
    by (rule bearer_inv_run)
  moreover have "accessToken (setAccessToken t this) = t"
    "map_of (headers_common (client (setAccessToken t this))) ''Authorization''
       = Some (''Bearer '' @ t)"
    by (simp_all add: setAccessToken_def map_of_obj_set)
  ultimately show ?thesis
    by (auto simp: bearer_inv_def list_all_iff setAccessToken_twice)
qed

lemma isolated_client_bearer_example:
  "list_all (\<lambda>c. \<not> is_SetAccessToken c) [GetShot ''1'', LikeShot ''2'']
   \<and> length (sent (client (run [GetShot ''1'', LikeShot ''2'']
               (setAccessToken ''abc123'' (run [] (Dribbble example_config)))))) = 2
   \<and> list_all (carries_bearer ''abc123'')
        (drop (length (sent (client (run [] (Dribbble example_config)))))
           (sent (client (run [GetShot ''1'', LikeShot ''2'']
               (setAccessToken ''abc123'' (run [] (Dribbble example_config)))))))"
proof -
  have h: "\<forall>c \<in> set [GetShot ''1'', LikeShot ''2'']. \<not> is_SetAccessToken c"
    by simp
  have n: "length (sent (client (run [GetShot ''1'', LikeShot ''2'']
               (setAccessToken ''abc123'' (run [] (Dribbble example_config)))))) = 2"
    by (simp add: run_def method_defs guarded_def enforceAuthorized_def setAccessToken_def
        client_get_def client_post_def axios_issue_def Let_def Dribbble_def axios_create_def)
  from isolated_client_bearer_header
    [of "[GetShot ''1'', LikeShot ''2'']" "[]" example_config "''abc123''"] h
  have "\<forall>r \<in> set (drop (length (sent (client (run [] (Dribbble example_config)))))
           (sent (client (run [GetShot ''1'', LikeShot ''2'']
               (setAccessToken ''abc123'' (run [] (Dribbble example_config))))))).
          carries_bearer ''abc123'' r"
    by blast
  with n show ?thesis by (simp add: list_all_iff)
qed

section \<open>Clients in one process\<close>

text \<open>
  The client the constructor builds is the first client of a fresh process, and the
  only one there: it finds in the shared object what axios put there.
\<close>

lemma first_client:
  "instances (new_Dribbble clientConfig startup) = [Dribbble clientConfig]"
  "attach (new_Dribbble clientConfig startup) (Dribbble clientConfig) = Dribbble clientConfig"
  by (simp_all add: new_Dribbble_def startup_def attach_def Dribbble_def)

text \<open>
  Whichever client installs a token, the header lands in the shared object, so every
  client finds it there at its next call; the stored token is the client's own.
\<close>

lemma setAccessToken_on_shared:
  assumes "i < length (instances P)"
  shows "map_of (axios_common (setAccessToken_on i t P)) ''Authorization''
           = Some (''Bearer '' @ t)"
    and "j < length (instances P) \<Longrightarrow>
         map_of (headers_common (client
               (attach (setAccessToken_on i t P) (instances (setAccessToken_on i t P) ! j))))
            ''Authorization'' = Some (''Bearer '' @ t)"
    and "j < length (instances P) \<Longrightarrow> j \<noteq> i \<Longrightarrow>
         accessToken (instances (setAccessToken_on i t P) ! j) = accessToken (instances P ! j)"
    and "accessToken (instances (setAccessToken_on i t P) ! i) = t"
  using assms
  by (simp_all add: setAccessToken_on_def detach_def attach_def setAccessToken_def
      map_of_obj_set)

text \<open>
  Claim C6, evaluated. Two clients \<open>a\<close> and \<open>b\<close> are constructed in one process;
  \<open>a.setAccessToken("A")\<close> is followed by \<open>b.setAccessToken("B")\<close>, and then \<open>a\<close> calls
  \<open>getProfile\<close>. The stored token of \<open>a\<close> is still \<open>A\<close>, so its guard lets the call
  pass, but the request of \<open>a\<close> goes out with \<open>Authorization: Bearer B\<close>: the header
  object is shared, and the write of \<open>b\<close> has replaced the header of \<open>a\<close>.
\<close>

theorem request_carries_other_clients_token:
  "accessToken (instances two_clients ! 0) = ''A''
   \<and> accessToken (instances two_clients ! 1) = ''B''
   \<and> axios_common two_clients
       = [(''Accept'', ''application/json, text/plain, */*''), (''Authorization'', ''Bearer B'')]
   \<and> fst (call_on 0 getProfile two_clients)
       = Some (Inr \<lparr> req_method = GET, req_baseURL = ''https://api.dribbble.com/v2'',
                       req_url = ''/user'',
                       req_headers = [(''Accept'', ''application/json, text/plain, */*''),
                                      (''Authorization'', ''Bearer B'')],
                       req_params = None, req_data = [] \<rparr>)"
  by code_simp

text \<open>
  Claim C10. After \<open>setAccessToken("")\<close> the stored token is empty, so each protected
  method throws the \<open>403\<close> error again and leaves the client, and with it the log of
  requests, as it was; and yet the common headers now hold \<open>Authorization\<close> with the
  value \<open>Bearer\<close> followed by a blank and the empty token.
\<close>

theorem empty_token_deauthorizes:
  "accessToken (setAccessToken [] this) = []
   \<and> map_of (headers_common (client (setAccessToken [] this))) ''Authorization''
       = Some ''Bearer ''
   \<and> unauthorized (setAccessToken [] this)
       = (Inl (DribbbleError ''Need authorization.'' 403), setAccessToken [] this)
   \<and> createAttachment ident file (setAccessToken [] this) = unauthorized (setAccessToken [] this)
   \<and> deleteAttachment ident attachmentId (setAccessToken [] this)
       = unauthorized (setAccessToken [] this)
   \<and> getLikes params (setAccessToken [] this) = unauthorized (setAccessToken [] this)
   \<and> hasLiked ident (setAccessToken [] this) = unauthorized (setAccessToken [] this)
   \<and> likeShot ident (setAccessToken [] this) = unauthorized (setAccessToken [] this)
   \<and> getUserProject params (setAccessToken [] this) = unauthorized (setAccessToken [] this)
   \<and> createProject name description (setAccessToken [] this)
       = unauthorized (setAccessToken [] this)
   \<and> updateProject ident d (setAccessToken [] this) = unauthorized (setAccessToken [] this)
   \<and> deleteProject ident (setAccessToken [] this) = unauthorized (setAccessToken [] this)
   \<and> getUserShots params (setAccessToken [] this) = unauthorized (setAccessToken [] this)
   \<and> createShot d (setAccessToken [] this) = unauthorized (setAccessToken [] this)
   \<and> updateShot ident d (setAccessToken [] this) = unauthorized (setAccessToken [] this)
   \<and> deleteShot ident (setAccessToken [] this) = unauthorized (setAccessToken [] this)
   \<and> getProfile (setAccessToken [] this) = unauthorized (setAccessToken [] this)"
proof -
  have e: "accessToken (setAccessToken [] this) = []"
    by (simp add: setAccessToken_def)
  have h: "map_of (headers_common (client (setAccessToken [] this))) ''Authorization''
       = Some ''Bearer ''"
    by (simp add: setAccessToken_def map_of_obj_set)
  have u: "unauthorized (setAccessToken [] this)
       = (Inl (DribbbleError ''Need authorization.'' 403), setAccessToken [] this)"
    by (simp add: unauthorized_def)
  have g: "\<And>body. guarded body (setAccessToken [] this) = unauthorized (setAccessToken [] this)"
    using e by (rule guarded_unauthorized)
  show ?thesis
    unfolding createAttachment_def deleteAttachment_def getLikes_def hasLiked_def likeShot_def
      getUserProject_def createProject_def updateProject_def deleteProject_def
      getUserShots_def createShot_def updateShot_def deleteShot_def getProfile_def g
    using e h u by simp
qed

lemma empty_token_example:
  "fst (getProfile (setAccessToken [] (setAccessToken ''abc123'' (Dribbble example_config))))
     = Inl (DribbbleError ''Need authorization.'' 403)
   \<and> sent (client (snd (getProfile
         (setAccessToken [] (setAccessToken ''abc123'' (Dribbble example_config)))))) = []
   \<and> headers_common (client (setAccessToken [] (setAccessToken ''abc123'' (Dribbble example_config))))
       = [(''Accept'', ''application/json, text/plain, */*''), (''Authorization'', ''Bearer '')]"
  by code_simp

section \<open>The token exchange\<close>


lemma exchange_example:
  "map req_data (sent (client (snd
      (exchangeAuthorizationCode ''c0de'' None (Dribbble example_config)))))
     = [''client_id=abc&client_secret=sec&code=c0de'']"
  by code_simp

section \<open>Query parameters of the list endpoints\<close>

lemma snakePipe_pager_example:
  "snakePipe (pager_object \<lparr>page = 1, perPage = 10\<rparr>)
     = [(''page'', JNum 1), (''per_page'', JNum 10)]"
  by code_simp

text \<open>
  Claim C4, evaluated. \<open>getPopularShots({page: 1, perPage: 10})\<close> on a fresh client, and
  \<open>getLikes\<close>, \<open>getUserProject\<close> and \<open>getUserShots\<close> with the same pager on a client
  holding a token, hand the transport the query parameters \<open>page\<close> and \<open>perPage\<close> as
  they are: \<open>transformRequest\<close> works on the request body only. Taken through
  \<open>snakePipe\<close> the pager would have the keys \<open>page\<close> and \<open>per_page\<close>.
\<close>

theorem pager_params_sent_as_given:
  "(\<exists>r. fst (getPopularShots \<lparr>page = 1, perPage = 10\<rparr> (Dribbble example_config)) = Inr r
        \<and> req_params r = Some [(''page'', JNum 1), (''perPage'', JNum 10)])
   \<and> (\<exists>r. fst (getLikes \<lparr>page = 1, perPage = 10\<rparr>
                 (setAccessToken ''abc123'' (Dribbble example_config))) = Inr r
        \<and> req_params r = Some [(''page'', JNum 1), (''perPage'', JNum 10)])
   \<and> (\<exists>r. fst (getUserProject \<lparr>page = 1, perPage = 10\<rparr>
                 (setAccessToken ''abc123'' (Dribbble example_config))) = Inr r
        \<and> req_params r = Some [(''page'', JNum 1), (''perPage'', JNum 10)])
   \<and> (\<exists>r. fst (getUserShots \<lparr>page = 1, perPage = 10\<rparr>
                 (setAccessToken ''abc123'' (Dribbble example_config))) = Inr r
        \<and> req_params r = Some [(''page'', JNum 1), (''perPage'', JNum 10)])
   \<and> snakePipe (pager_object \<lparr>page = 1, perPage = 10\<rparr>)
        = [(''page'', JNum 1), (''per_page'', JNum 10)]"
proof -
  have "accessToken (setAccessToken ''abc123'' (Dribbble example_config)) \<noteq> []"
    by (simp add: setAccessToken_def)
  then have g: "\<And>body :: dribbble \<Rightarrow> axios_request outcome.
      guarded body (setAccessToken ''abc123'' (Dribbble example_config))
        = body (setAccessToken ''abc123'' (Dribbble example_config))"
    by (rule guarded_authorized)
  show ?thesis
    unfolding getLikes_def getUserProject_def getUserShots_def getPopularShots_def g
    by (simp add: snakePipe_pager_example)
       (simp add: client_get_def axios_issue_def Let_def pager_object_def)
qed


section \<open>The authorization URL\<close>




















end
